theory Spec2Isabelle
  imports Main "HOL-Library.Sublist" "HOL-Library.Product_Lexorder"
begin

section \<open>Strings as Python sees them\<close>

text \<open>
  A Python \<open>str\<close> is modelled as a \<open>string\<close> (a list of 8-bit characters, read as the
  code points 0..255).  The character classes below are the ones \<open>str.strip\<close>,
  \<open>str.isspace\<close> and the \<open>re\<close> module (\<open>\s\<close>, \<open>\w\<close> on \<open>str\<close> patterns) use,
  restricted to that range.
\<close>

definition newline :: char where
  "newline = CHR 0x0A"

definition is_space :: "char \<Rightarrow> bool" where
  "is_space c = (let n = (of_char c :: nat) in
     (9 \<le> n \<and> n \<le> 13) \<or> (28 \<le> n \<and> n \<le> 32) \<or> n = 133 \<or> n = 160)"

definition is_word :: "char \<Rightarrow> bool" where
  "is_word c = (let n = (of_char c :: nat) in
     (48 \<le> n \<and> n \<le> 57) \<or> (65 \<le> n \<and> n \<le> 90) \<or> n = 95 \<or> (97 \<le> n \<and> n \<le> 122) \<or>
     n = 170 \<or> n = 178 \<or> n = 179 \<or> n = 181 \<or> n = 185 \<or> n = 186 \<or>
     (188 \<le> n \<and> n \<le> 190) \<or> (192 \<le> n \<and> n \<le> 214) \<or> (216 \<le> n \<and> n \<le> 246) \<or> 248 \<le> n)"

text \<open>\<open>content.split('\n')\<close>: never empty, one more element than there are newlines.\<close>

fun split_nl :: "string \<Rightarrow> string list" where
  "split_nl [] = [[]]"
| "split_nl (c # cs) =
     (if c = newline then [] # split_nl cs
      else (case split_nl cs of [] \<Rightarrow> [[c]] | l # ls \<Rightarrow> (c # l) # ls))"

text \<open>\<open>'\n'.join(parts)\<close>.\<close>

fun join_nl :: "string list \<Rightarrow> string" where
  "join_nl [] = []"
| "join_nl [l] = l"
| "join_nl (l # m # ls) = l @ newline # join_nl (m # ls)"

text \<open>\<open>s.strip()\<close> removes leading and trailing whitespace.\<close>

definition py_strip :: "string \<Rightarrow> string" where
  "py_strip s = rev (dropWhile is_space (rev (dropWhile is_space s)))"

section \<open>The line-window fallback\<close>

text \<open>The exceptions of the program, as values.\<close>

datatype error = ValueError | IndexError | OSError

text \<open>
  The loop \<open>for i in range(0, len(lines), max_lines)\<close> of \<open>chunk_by_lines\<close>, for a
  positive step: the window \<open>lines[i:i + max_lines]\<close> is joined and kept when it is not
  blank.
\<close>

function window_chunks :: "string list \<Rightarrow> nat \<Rightarrow> nat \<Rightarrow> string list" where
  "window_chunks lines m i =
     (if m = 0 \<or> length lines \<le> i then []
      else (let chunk = join_nl (take m (drop i lines)) in
              (if py_strip chunk \<noteq> [] then [chunk] else []) @ window_chunks lines m (i + m)))"
  by pat_completeness auto
termination
  by (relation "measure (\<lambda>(lines, m, i). length lines - i)") auto

declare window_chunks.simps [simp del]

text \<open>
  \<open>chunk_by_lines(content, max_lines)\<close>.  \<open>range\<close> raises \<open>ValueError\<close> for a zero step
  and is empty for a negative one.
\<close>

definition chunk_by_lines :: "string \<Rightarrow> int \<Rightarrow> error + string list" where
  "chunk_by_lines content max_lines =
     (if max_lines = 0 then Inl ValueError
      else if max_lines < 0 then Inr []
      else Inr (window_chunks (split_nl content) (nat max_lines) 0))"

section \<open>The regular expressions of the segmenter\<close>

text \<open>
  The patterns handed to \<open>re.findall\<close> and \<open>re.finditer\<close> are modelled by a backtracking
  matcher.  Only the constructs the patterns of \<open>chunking_utils.py\<close> use are present.
\<close>

datatype cclass =
    Ch char
  | NotCh char
  | Space
  | NotSpace
  | Word
  | Dot
  | OneOf "cclass list"

fun in_class :: "cclass \<Rightarrow> char \<Rightarrow> bool" where
  "in_class (Ch a) c = (c = a)"
| "in_class (NotCh a) c = (c \<noteq> a)"
| "in_class Space c = is_space c"
| "in_class NotSpace c = (\<not> is_space c)"
| "in_class Word c = is_word c"
| "in_class Dot c = (c \<noteq> newline)"
| "in_class (OneOf ks) c = (\<exists>k \<in> set ks. in_class k c)"

datatype regex =
    Sym cclass
  | Eps
  | Seq regex regex
  | Alt regex regex
  | Star regex
  | LazyStar regex
  | Look regex
  | Bol
  | Eos

text \<open>
  A matching state is the character just before the current position (\<open>None\<close> at the
  start of the subject) and the text that is left.
\<close>

type_synonym mstate = "char option \<times> string"

text \<open>
  Repetition.  \<open>f\<close> gives the states after one iteration of the body, best first.  The
  greedy star tries another iteration before it stops, the lazy star stops first.  An
  iteration that consumes nothing is not repeated; every repeated body in the
  patterns below consumes at least one character.
\<close>

function star_greedy :: "(mstate \<Rightarrow> mstate list) \<Rightarrow> mstate \<Rightarrow> mstate list" where
  "star_greedy f st =
     concat (map (star_greedy f) (filter (\<lambda>st'. length (snd st') < length (snd st)) (f st))) @ [st]"
  by pat_completeness auto
termination
  by (relation "measure (\<lambda>(f, st). length (snd st))") auto

function star_lazy :: "(mstate \<Rightarrow> mstate list) \<Rightarrow> mstate \<Rightarrow> mstate list" where
  "star_lazy f st =
     st # concat (map (star_lazy f) (filter (\<lambda>st'. length (snd st') < length (snd st)) (f st)))"
  by pat_completeness auto
termination
  by (relation "measure (\<lambda>(f, st). length (snd st))") auto

declare star_greedy.simps [simp del] star_lazy.simps [simp del]

text \<open>
  \<open>ends r st\<close>: every state in which a match of \<open>r\<close> begun at \<open>st\<close> can end, in the order
  in which backtracking tries them.  The head of the list is the match \<open>re\<close> reports.
  \<open>Bol\<close> is \<open>^\<close> under \<open>re.MULTILINE\<close>; \<open>Eos\<close> is \<open>$\<close> without it (the end of the subject,
  or just before a final newline).
\<close>

primrec ends :: "regex \<Rightarrow> mstate \<Rightarrow> mstate list" where
  "ends (Sym k) st =
     (case snd st of [] \<Rightarrow> [] | c # cs \<Rightarrow> if in_class k c then [(Some c, cs)] else [])"
| "ends Eps st = [st]"
| "ends (Seq a b) st = concat (map (ends b) (ends a st))"
| "ends (Alt a b) st = ends a st @ ends b st"
| "ends (Star a) st = star_greedy (ends a) st"
| "ends (LazyStar a) st = star_lazy (ends a) st"
| "ends (Look a) st = (if ends a st = [] then [] else [st])"
| "ends Bol st = (if fst st = None \<or> fst st = Some newline then [st] else [])"
| "ends Eos st = (if snd st = [] \<or> snd st = [newline] then [st] else [])"

text \<open>Pattern syntax: a literal word, \<open>r+\<close>, \<open>r?\<close>, and a sequence.\<close>

fun lit :: "string \<Rightarrow> regex" where
  "lit [] = Eps"
| "lit (c # cs) = Seq (Sym (Ch c)) (lit cs)"

definition plus :: "regex \<Rightarrow> regex" where
  "plus r = Seq r (Star r)"

definition opt :: "regex \<Rightarrow> regex" where
  "opt r = Alt r Eps"

fun seqs :: "regex list \<Rightarrow> regex" where
  "seqs [] = Eps"
| "seqs (r # rs) = Seq r (seqs rs)"

fun alts :: "regex list \<Rightarrow> regex" where
  "alts [] = Look (Sym (OneOf []))"
| "alts [r] = r"
| "alts (r # rs) = Alt r (alts rs)"

text \<open>
  The scan of \<open>re.finditer\<close>: the leftmost match from the current position is reported
  as its span \<open>(start, end)\<close> and the scan goes on behind it.  (After an empty match the
  scan moves one character on; no pattern below matches the empty string.)
\<close>

function finditer_from :: "regex \<Rightarrow> nat \<Rightarrow> mstate \<Rightarrow> (nat \<times> nat) list" where
  "finditer_from r pos st =
     (case ends r st of
        [] \<Rightarrow> (case snd st of [] \<Rightarrow> [] | c # cs \<Rightarrow> finditer_from r (Suc pos) (Some c, cs))
      | st' # _ \<Rightarrow>
          (let n = length (snd st) - length (snd st') in
             if n = 0
             then (pos, pos) #
                  (case snd st of [] \<Rightarrow> [] | c # cs \<Rightarrow> finditer_from r (Suc pos) (Some c, cs))
             else (pos, pos + n) # finditer_from r (pos + n) st'))"
  by pat_completeness auto
termination
  by (relation "measure (\<lambda>(r, pos, st). length (snd st))") auto

declare finditer_from.simps [simp del]

definition finditer :: "regex \<Rightarrow> string \<Rightarrow> (nat \<times> nat) list" where
  "finditer r s = finditer_from r 0 (None, s)"

text \<open>The slice \<open>s[a:b]\<close> for \<open>0 \<le> a\<close>, \<open>0 \<le> b\<close>.\<close>

definition slice :: "string \<Rightarrow> nat \<Rightarrow> nat \<Rightarrow> string" where
  "slice s a b = take (b - a) (drop a s)"

text \<open>
  \<open>match.group(0)\<close> of every match.  This is also what \<open>re.findall\<close> returns for the
  patterns it is used with here: each has one group, which spans the whole match
  (what follows the group is a lookahead).
\<close>

definition findall :: "regex \<Rightarrow> string \<Rightarrow> string list" where
  "findall r s = map (\<lambda>(a, b). slice s a b) (finditer r s)"

section \<open>The python family\<close>

text \<open>
  \<open>class_pattern\<close> and \<open>function_pattern\<close> of \<open>chunk_python_file\<close>:
  \<^verbatim>\<open>(class\s+\w+\s*(?:\([^)]*\))?\s*:(?:.|\n)*?)(?=\n\S|$)\<close> and
  \<^verbatim>\<open>(def\s+\w+\s*\([^)]*\)\s*(?:->.*?)?\s*:(?:.|\n)*?)(?=\n\S|$)\<close>.
\<close>

definition any_char :: regex where
  "any_char = Alt (Sym Dot) (Sym (Ch newline))"

definition unit_end :: regex where
  "unit_end = Look (Alt (Seq (Sym (Ch newline)) (Sym NotSpace)) Eos)"

definition py_class_pattern :: regex where
  "py_class_pattern = seqs
     [lit ''class'', plus (Sym Space), plus (Sym Word), Star (Sym Space),
      opt (seqs [Sym (Ch CHR ''(''), Star (Sym (NotCh CHR '')'')), Sym (Ch CHR '')'')]),
      Star (Sym Space), Sym (Ch CHR '':''), LazyStar any_char, unit_end]"

definition py_function_pattern :: regex where
  "py_function_pattern = seqs
     [lit ''def'', plus (Sym Space), plus (Sym Word), Star (Sym Space),
      Sym (Ch CHR ''(''), Star (Sym (NotCh CHR '')'')), Sym (Ch CHR '')''), Star (Sym Space),
      opt (seqs [lit ''->'', LazyStar (Sym Dot)]),
      Star (Sym Space), Sym (Ch CHR '':''), LazyStar any_char, unit_end]"

text \<open>\<open>s.replace(old, new)\<close>: every occurrence, left to right, without overlap.\<close>

function replace_scan :: "string \<Rightarrow> string \<Rightarrow> string \<Rightarrow> string" where
  "replace_scan old new [] = []"
| "replace_scan old new (c # cs) =
     (if old \<noteq> [] \<and> prefix old (c # cs)
      then new @ replace_scan old new (drop (length old) (c # cs))
      else c # replace_scan old new cs)"
  by pat_completeness auto
termination
  by (relation "measure (\<lambda>(old, new, s). length s)") auto

definition py_replace :: "string \<Rightarrow> string \<Rightarrow> string \<Rightarrow> string" where
  "py_replace s old new =
     (if old = [] then new @ concat (map (\<lambda>c. c # new) s) else replace_scan old new s)"

text \<open>
  The two extraction loops: each match is appended to \<open>chunks\<close> and every occurrence of
  its text is removed from \<open>content\<close>.
\<close>

fun extract_loop :: "string list \<Rightarrow> string list \<Rightarrow> string \<Rightarrow> string list \<times> string" where
  "extract_loop [] chunks content = (chunks, content)"
| "extract_loop (d # ds) chunks content =
     extract_loop ds (chunks @ [d]) (py_replace content d [])"

text \<open>The loop over the remaining lines, with \<open>current_chunk\<close> as accumulator.\<close>

fun module_lines :: "string list \<Rightarrow> string list \<Rightarrow> string list" where
  "module_lines [] current_chunk = current_chunk"
| "module_lines (line # lines) current_chunk =
     (if py_strip line \<noteq> [] \<and> \<not> prefix '' '' line
      then module_lines lines (current_chunk @ [line])
      else if current_chunk \<noteq> [] then module_lines lines (current_chunk @ [line])
      else module_lines lines current_chunk)"

definition chunk_python_file :: "string \<Rightarrow> string list" where
  "chunk_python_file content0 =
     (let classes = findall py_class_pattern content0;
          (chunks1, content1) = extract_loop classes [] content0;
          functions = findall py_function_pattern content1;
          (chunks2, content) = extract_loop functions chunks1 content1;
          current_chunk = module_lines (split_nl content) [];
          chunks = (if current_chunk \<noteq> [] then chunks2 @ [join_nl current_chunk] else chunks2)
      in if length chunks \<le> 1 then [content] else chunks)"

section \<open>The brace-delimited families\<close>

text \<open>
  The loop that removes the class spans from \<open>[(0, len(content))]\<close>: for one span, every
  range contributes the part before the span's start and the part behind its end.
\<close>

definition subtract_span :: "nat \<times> nat \<Rightarrow> (nat \<times> nat) list \<Rightarrow> (nat \<times> nat) list" where
  "subtract_span span uncovered =
     concat (map (\<lambda>(range_start, range_end).
        (if range_start < fst span then [(range_start, fst span)] else []) @
        (if snd span < range_end then [(snd span, range_end)] else [])) uncovered)"

definition uncovered_ranges :: "nat \<Rightarrow> (nat \<times> nat) list \<Rightarrow> (nat \<times> nat) list" where
  "uncovered_ranges n class_positions = fold subtract_span (sort class_positions) [(0, n)]"

text \<open>The texts matched by the patterns \<open>ps\<close>, in turn, in every uncovered range.\<close>

definition range_matches :: "regex list \<Rightarrow> string \<Rightarrow> (nat \<times> nat) list \<Rightarrow> string list" where
  "range_matches ps content ranges =
     concat (map (\<lambda>(start, end).
        concat (map (\<lambda>p. findall p (slice content start end)) ps)) ranges)"

text \<open>The tail shared by the three structural chunkers.\<close>

definition with_imports :: "string list \<Rightarrow> string list \<Rightarrow> string list" where
  "with_imports chunks imports =
     (if imports \<noteq> [] then chunks @ [join_nl imports] else chunks)"

definition whole_file_if_few :: "string list \<Rightarrow> string \<Rightarrow> string list" where
  "whole_file_if_few chunks content = (if length chunks \<le> 1 then [content] else chunks)"

definition block_end :: "regex list" where
  "block_end = [Sym (Ch CHR ''{''), LazyStar any_char, Bol, Sym (Ch CHR ''}'')]"

definition generic :: regex where
  "generic = opt (seqs [Sym (Ch CHR ''<''), LazyStar (Sym Dot), Sym (Ch CHR ''>'')])"

definition c_class_pattern :: regex where
  "c_class_pattern = seqs (
     [opt (alts [lit ''public'', lit ''private'', lit ''protected'']), Star (Sym Space),
      alts [lit ''class'', lit ''struct'', lit ''interface''], plus (Sym Space), plus (Sym Word),
      generic,
      opt (seqs [plus (Sym Space), lit ''extends'', plus (Sym Space), plus (Sym Word), generic]),
      opt (seqs [plus (Sym Space), lit ''implements'', plus (Sym Space),
                 plus (Sym (OneOf [Word, Ch CHR '','', Space, Ch CHR ''<'', Ch CHR ''>'']))]),
      Star (Sym Space)] @ block_end)"

definition modifier :: regex where
  "modifier = alts [lit ''public'', lit ''private'', lit ''protected'', lit ''static'',
     lit ''final'', lit ''native'', lit ''synchronized'', lit ''abstract'', lit ''transient'']"

definition c_method_pattern :: regex where
  "c_method_pattern = seqs (
     [modifier, Star (Seq (plus (Sym Space)) modifier), plus (Sym Space),
      plus (Sym (OneOf [Word, Ch CHR ''<'', Ch CHR ''>'', Ch CHR ''['', Ch CHR '']''])),
      plus (Sym Space), plus (Sym Word), Star (Sym Space),
      Sym (Ch CHR ''(''), Star (Sym (NotCh CHR '')'')), Sym (Ch CHR '')''),
      opt (seqs [plus (Sym Space), lit ''throws'', plus (Sym (OneOf [Word, Ch CHR '','', Space]))]),
      Star (Sym Space)] @ block_end)"

definition c_import_pattern :: regex where
  "c_import_pattern = Alt
     (seqs [lit ''package'', plus (Sym Space), plus (Sym (OneOf [Word, Ch CHR ''.''])),
            Sym (Ch CHR '';'')])
     (seqs [lit ''import'', plus (Sym Space),
            plus (Sym (OneOf [Word, Ch CHR ''.'', Ch CHR ''*''])), Sym (Ch CHR '';'')])"

definition chunk_c_style_file :: "string \<Rightarrow> string list" where
  "chunk_c_style_file content =
     (let class_positions = finditer c_class_pattern content;
          chunks = map (\<lambda>(a, b). slice content a b) class_positions;
          uncovered = uncovered_ranges (length content) class_positions;
          chunks = chunks @ range_matches [c_method_pattern] content uncovered;
          chunks = with_imports chunks (findall c_import_pattern content)
      in whole_file_if_few chunks content)"

definition js_class_pattern :: regex where
  "js_class_pattern = seqs (
     [lit ''class'', plus (Sym Space), plus (Sym Word),
      opt (seqs [plus (Sym Space), lit ''extends'', plus (Sym Space), plus (Sym Word)]),
      Star (Sym Space)] @ block_end)"

definition params :: "regex list" where
  "params = [Sym (Ch CHR ''(''), Star (Sym (NotCh CHR '')'')), Sym (Ch CHR '')'')]"

definition arrow_pattern :: "string \<Rightarrow> regex" where
  "arrow_pattern kw = seqs (
     [lit kw, plus (Sym Space), plus (Sym Word), Star (Sym Space), Sym (Ch CHR ''=''),
      Star (Sym Space), opt (seqs [lit ''async'', Star (Sym Space)])] @ params @
     [Star (Sym Space), lit ''=>'', Star (Sym Space)] @ block_end)"

definition js_function_patterns :: "regex list" where
  "js_function_patterns =
     [seqs ([lit ''function'', plus (Sym Space), plus (Sym Word), Star (Sym Space)] @ params @
            [Star (Sym Space)] @ block_end),
      arrow_pattern ''const'',
      arrow_pattern ''let'',
      arrow_pattern ''var'',
      seqs ([lit ''export'', plus (Sym Space), opt (seqs [lit ''default'', plus (Sym Space)]),
             lit ''function'', plus (Sym Space), plus (Sym Word), Star (Sym Space)] @ params @
            [Star (Sym Space)] @ block_end)]"

definition js_import_pattern :: regex where
  "js_import_pattern = Alt
     (seqs [lit ''import'', plus (Sym Space), LazyStar (Sym Dot), Sym (Ch CHR '';'')])
     (seqs [lit ''require('', LazyStar (Sym Dot), Sym (Ch CHR '')'')])"

definition chunk_javascript_file :: "string \<Rightarrow> string list" where
  "chunk_javascript_file content =
     (let class_positions = finditer js_class_pattern content;
          chunks = map (\<lambda>(a, b). slice content a b) class_positions;
          uncovered = uncovered_ranges (length content) class_positions;
          chunks = chunks @ range_matches js_function_patterns content uncovered;
          chunks = with_imports chunks (findall js_import_pattern content)
      in whole_file_if_few chunks content)"

section \<open>Dispatch on the file extension\<close>

text \<open>\<open>s.rfind(c)\<close>: the last index of \<open>c\<close>, or \<open>-1\<close>.\<close>

fun rfind_from :: "char \<Rightarrow> string \<Rightarrow> int \<Rightarrow> int \<Rightarrow> int" where
  "rfind_from c [] i found = found"
| "rfind_from c (x # xs) i found = rfind_from c xs (i + 1) (if x = c then i else found)"

definition rfind :: "char \<Rightarrow> string \<Rightarrow> int" where
  "rfind c s = rfind_from c s 0 (-1)"

text \<open>
  \<open>os.path.splitext(p)[1]\<close> (POSIX): the text from the last dot of the last path
  component on, unless only dots come before it in that component.
\<close>

definition splitext_ext :: "string \<Rightarrow> string" where
  "splitext_ext p =
     (let sepIndex = rfind CHR ''/'' p; dotIndex = rfind CHR ''.'' p in
        if dotIndex > sepIndex \<and>
           list_ex (\<lambda>c. c \<noteq> CHR ''.'') (slice p (nat (sepIndex + 1)) (nat dotIndex))
        then drop (nat dotIndex) p else [])"

definition basename :: "string \<Rightarrow> string" where
  "basename p = drop (nat (rfind CHR ''/'' p + 1)) p"

definition lower_char :: "char \<Rightarrow> char" where
  "lower_char c = (let n = (of_char c :: nat) in
     if (65 \<le> n \<and> n \<le> 90) \<or> (192 \<le> n \<and> n \<le> 222 \<and> n \<noteq> 215) then char_of (n + 32) else c)"

definition py_lower :: "string \<Rightarrow> string" where
  "py_lower s = map lower_char s"

definition chunk_code_file :: "string \<Rightarrow> string \<Rightarrow> error + string list" where
  "chunk_code_file content file_path =
     (let ext = py_lower (splitext_ext file_path) in
        if ext \<in> set [''.py''] then Inr (chunk_python_file content)
        else if ext \<in> set [''.java'', ''.cs'', ''.cpp'', ''.c'', ''.h'']
          then Inr (chunk_c_style_file content)
        else if ext \<in> set [''.js'', ''.ts''] then Inr (chunk_javascript_file content)
        else chunk_by_lines content 100)"

section \<open>The walker and the indexing loop\<close>

text \<open>
  What \<open>process_repository\<close> reads from outside the program is collected in an
  environment: the result of \<open>glob.glob\<close> for a pattern, the result of opening and
  reading a file, the result of \<open>os.path.relpath\<close> (each of the last two may raise), and
  the embedding model's \<open>encode\<close>.
\<close>

record 'v environment =
  glob_files :: "string \<Rightarrow> string list"
  read_file :: "string \<Rightarrow> error + string"
  relpath :: "string \<Rightarrow> string \<Rightarrow> error + string"
  encode :: "string list \<Rightarrow> 'v list"

record metadata =
  file_path :: string
  repo_name :: string
  chunk_id :: nat
  language :: string

definition code_extensions :: "string list" where
  "code_extensions =
     [''.py'', ''.java'', ''.js'', ''.ts'', ''.go'', ''.rb'', ''.cs'', ''.cpp'', ''.c'', ''.h'']"

definition excluded_dirs :: "string list" where
  "excluded_dirs = [''node_modules'', ''venv'', ''.git'', ''__pycache__'', ''build'', ''dist'']"

text \<open>\<open>sub in s\<close> on strings.\<close>

fun contains :: "string \<Rightarrow> string \<Rightarrow> bool" where
  "contains sub [] = (sub = [])"
| "contains sub (c # cs) = (prefix sub (c # cs) \<or> contains sub cs)"

definition excluded :: "string \<Rightarrow> bool" where
  "excluded path = list_ex (\<lambda>d. contains d path) excluded_dirs"

text \<open>
  The body of the \<open>try\<close> block for one file: read, make the path relative, chunk, and
  pair every chunk with its metadata.  \<open>Inl\<close> is the exception the \<open>except\<close> clause
  catches.
\<close>

definition process_file ::
  "'v environment \<Rightarrow> string \<Rightarrow> string \<Rightarrow> error + (string \<times> metadata) list" where
  "process_file env repo_path path =
     (case read_file env path of
        Inl e \<Rightarrow> Inl e
      | Inr content \<Rightarrow>
          (case relpath env path repo_path of
             Inl e \<Rightarrow> Inl e
           | Inr rel_path \<Rightarrow>
               (case chunk_code_file content path of
                  Inl e \<Rightarrow> Inl e
                | Inr chunks \<Rightarrow>
                    Inr (map (\<lambda>(i, chunk).
                           (chunk, \<lparr>file_path = rel_path, repo_name = basename repo_path,
                                    chunk_id = i, language = drop 1 (splitext_ext path)\<rparr>))
                         (enumerate 0 chunks)))))"

text \<open>
  The loop over \<open>code_files\<close>.  The state is the chunks collected so far (with their
  metadata) and the log of \<open>logger.error\<close> calls (the path and the exception).
\<close>

fun walk_files ::
  "'v environment \<Rightarrow> string \<Rightarrow> string list \<Rightarrow>
   (string \<times> metadata) list \<times> (string \<times> error) list \<Rightarrow>
   (string \<times> metadata) list \<times> (string \<times> error) list" where
  "walk_files env repo_path [] (collected, logged) = (collected, logged)"
| "walk_files env repo_path (path # paths) (collected, logged) =
     (if excluded path then walk_files env repo_path paths (collected, logged)
      else (case process_file env repo_path path of
              Inl e \<Rightarrow> walk_files env repo_path paths (collected, logged @ [(path, e)])
            | Inr found \<Rightarrow> walk_files env repo_path paths (collected @ found, logged)))"

definition code_files :: "'v environment \<Rightarrow> string \<Rightarrow> string list" where
  "code_files env repo_path =
     concat (map (\<lambda>ext. glob_files env (repo_path @ ''/**/*'' @ ext)) code_extensions)"

text \<open>A point handed to the store's \<open>upsert\<close>: its id, its vector and its payload.\<close>

record 'v point =
  point_id :: nat
  vector :: 'v
  text_of :: string
  meta :: metadata

definition batch_size :: nat where
  "batch_size = 32"

text \<open>
  The loop \<open>for i in range(0, len(all_chunks), batch_size)\<close>.  The result is the list of
  point batches passed to \<open>upsert\<close>, in order, and the exception that ended the loop, if
  any: \<open>batch_chunks[j]\<close> raises \<open>IndexError\<close> when \<open>encode\<close> returns more vectors than it
  was given chunks.  The calls of \<open>encode\<close> and \<open>upsert\<close> themselves are taken to return.
\<close>

function index_batches ::
  "'v environment \<Rightarrow> (string \<times> metadata) list \<Rightarrow> nat \<Rightarrow> 'v point list list \<times> error option" where
  "index_batches env all_chunks i =
     (if length all_chunks \<le> i then ([], None)
      else (let batch = take batch_size (drop i all_chunks);
                embeddings = encode env (map fst batch)
            in if length batch < length embeddings then ([], Some IndexError)
               else (let points = map (\<lambda>(j, embedding).
                            \<lparr>point_id = i + j, vector = embedding,
                             text_of = fst (batch ! j), meta = snd (batch ! j)\<rparr>)
                          (enumerate 0 embeddings);
                         (batches, r) = index_batches env all_chunks (i + batch_size)
                     in (points # batches, r))))"
  by pat_completeness auto
termination
  by (relation "measure (\<lambda>(env, all_chunks, i). length all_chunks - i)")
     (auto simp: batch_size_def)

declare index_batches.simps [simp del]

definition process_repository ::
  "'v environment \<Rightarrow> string \<Rightarrow> ('v point list list \<times> error option) \<times> (string \<times> error) list" where
  "process_repository env repo_path =
     (let (all_chunks, logged) = walk_files env repo_path (code_files env repo_path) ([], [])
      in if all_chunks = [] then (([], None), logged)
         else (index_batches env all_chunks 0, logged))"

text \<open>
  The loop of \<open>main\<close> over \<open>config['repositories']\<close>: the batches upserted by the whole
  run.  An exception leaves the loop.
\<close>

fun index_repositories :: "'v environment \<Rightarrow> string list \<Rightarrow> 'v point list list \<times> error option" where
  "index_repositories env [] = ([], None)"
| "index_repositories env (repo_path # repos) =
     (case fst (process_repository env repo_path) of
        (batches, Some e) \<Rightarrow> (batches, Some e)
      | (batches, None) \<Rightarrow>
          (let (more, r) = index_repositories env repos in (batches @ more, r)))"

definition upserted_ids :: "'v point list list \<Rightarrow> nat list" where
  "upserted_ids batches = map point_id (concat batches)"

text \<open>
  The vector store holds one entry for each id; \<open>upsert\<close> writes the points of a batch
  in order, replacing the entry of an id that is already present.
\<close>

type_synonym 'v store = "nat \<rightharpoonup> 'v \<times> string \<times> metadata"

definition upsert :: "'v point list \<Rightarrow> 'v store \<Rightarrow> 'v store" where
  "upsert points st = fold (\<lambda>p m. m(point_id p \<mapsto> (vector p, text_of p, meta p))) points st"

definition run_on_store :: "'v environment \<Rightarrow> string list \<Rightarrow> 'v store \<Rightarrow> 'v store" where
  "run_on_store env repos st = fold upsert (fst (index_repositories env repos)) st"

section \<open>An example environment\<close>

text \<open>
  Two repositories \<open>r1\<close> and \<open>r2\<close> with one source file each, both holding the text
  \<open>x\<close>; the embedding of a chunk is its length.
\<close>

definition two_repos :: "nat environment" where
  "two_repos =
     \<lparr>glob_files = (\<lambda>pattern. if pattern = ''r1/**/*.go'' then [''r1/a.go'']
                               else if pattern = ''r2/**/*.go'' then [''r2/b.go''] else []),
      read_file = (\<lambda>path. Inr ''x''),
      relpath = (\<lambda>path start. Inr (drop (length start + 1) path)),
      encode = map length\<rparr>"

section \<open>Facts about lines\<close>

lemma split_nl_not_Nil: "split_nl s \<noteq> []"
  by (induction s) (auto split: list.splits)

lemma split_nl_no_newline: "l \<in> set (split_nl s) \<Longrightarrow> newline \<notin> set l"
proof (induction s arbitrary: l)
  case Nil
  then show ?case by simp
next
  case (Cons c cs)
  then show ?case
    by (cases "split_nl cs") (auto split: if_splits)
qed

lemma split_nl_no_newline_id: "newline \<notin> set l \<Longrightarrow> split_nl l = [l]"
  by (induction l) auto

lemma split_nl_append:
  "newline \<notin> set l \<Longrightarrow> split_nl (l @ newline # r) = l # split_nl r"
  by (induction l) auto

lemma split_join_nl:
  "ls \<noteq> [] \<Longrightarrow> \<forall>l \<in> set ls. newline \<notin> set l \<Longrightarrow> split_nl (join_nl ls) = ls"
proof (induction ls rule: join_nl.induct)
  case 1
  then show ?case by simp
next
  case (2 l)
  then show ?case by (simp add: split_nl_no_newline_id)
next
  case (3 l m ls)
  then show ?case by (simp add: split_nl_append)
qed

lemma join_split_nl: "join_nl (split_nl s) = s"
proof (induction s)
  case Nil
  then show ?case by simp
next
  case (Cons c cs)
  show ?case
  proof (cases "split_nl cs")
    case Nil
    then show ?thesis using split_nl_not_Nil by blast
  next
    case (Cons l ls)
    with Cons.IH show ?thesis by (cases ls) auto
  qed
qed

lemma all_dropWhile_iff: "(\<forall>x \<in> set (dropWhile P s). P x) \<longleftrightarrow> (\<forall>x \<in> set s. P x)"
  by (induction s) auto

lemma py_strip_Nil_iff: "py_strip s = [] \<longleftrightarrow> (\<forall>c \<in> set s. is_space c)"
  by (simp add: py_strip_def dropWhile_eq_Nil_conv all_dropWhile_iff)

lemma window_chunks_five:
  assumes "length ls = 5"
  shows "window_chunks ls 2 0 =
     (if py_strip (join_nl (take 2 ls)) \<noteq> [] then [join_nl (take 2 ls)] else []) @
     (if py_strip (join_nl (take 2 (drop 2 ls))) \<noteq> [] then [join_nl (take 2 (drop 2 ls))] else []) @
     (if py_strip (join_nl (take 2 (drop 4 ls))) \<noteq> [] then [join_nl (take 2 (drop 4 ls))] else [])"
proof -
  have a: "window_chunks ls 2 6 = []"
    using assms by (simp add: window_chunks.simps [of ls 2 6])
  have b: "window_chunks ls 2 4 =
      (if py_strip (join_nl (take 2 (drop 4 ls))) \<noteq> [] then [join_nl (take 2 (drop 4 ls))] else [])"
    using assms a by (simp add: window_chunks.simps [of ls 2 4])
  have c: "window_chunks ls 2 2 =
      (if py_strip (join_nl (take 2 (drop 2 ls))) \<noteq> [] then [join_nl (take 2 (drop 2 ls))] else []) @
      window_chunks ls 2 4"
    using assms by (simp add: window_chunks.simps [of ls 2 2])
  have d: "window_chunks ls 2 0 =
      (if py_strip (join_nl (take 2 ls)) \<noteq> [] then [join_nl (take 2 ls)] else []) @
      window_chunks ls 2 2"
    using assms by (simp add: window_chunks.simps [of ls 2 0] numeral_2_eq_2 [symmetric])
  show ?thesis by (simp only: d c b)
qed

lemma is_space_newline: "is_space newline"
  by (simp add: is_space_def newline_def)

lemma set_join_nl_subset: "set (join_nl ls) \<subseteq> (\<Union>l \<in> set ls. set l) \<union> {newline}"
  by (induction ls rule: join_nl.induct) auto

lemma set_line_subset_join: "l \<in> set ls \<Longrightarrow> set l \<subseteq> set (join_nl ls)"
  by (induction ls rule: join_nl.induct) auto

lemma blank_join_nl:
  "\<forall>l \<in> set ls. py_strip l = [] \<Longrightarrow> py_strip (join_nl ls) = []"
  using set_join_nl_subset [of ls] is_space_newline
  by (fastforce simp: py_strip_Nil_iff)

lemma nonblank_join_nl:
  "l \<in> set ls \<Longrightarrow> py_strip l \<noteq> [] \<Longrightarrow> py_strip (join_nl ls) \<noteq> []"
  using set_line_subset_join [of l ls] by (auto simp: py_strip_Nil_iff)

lemma blank_iff_lines_blank:
  "py_strip s = [] \<longleftrightarrow> (\<forall>l \<in> set (split_nl s). py_strip l = [])"
proof
  assume "py_strip s = []"
  then have "\<forall>c \<in> set (join_nl (split_nl s)). is_space c"
    by (simp add: join_split_nl py_strip_Nil_iff)
  then show "\<forall>l \<in> set (split_nl s). py_strip l = []"
    using set_line_subset_join [of _ "split_nl s"] by (fastforce simp: py_strip_Nil_iff)
next
  assume "\<forall>l \<in> set (split_nl s). py_strip l = []"
  then have "py_strip (join_nl (split_nl s)) = []" by (rule blank_join_nl)
  then show "py_strip s = []" by (simp add: join_split_nl)
qed

lemma window_chunks_blank:
  "\<forall>l \<in> set ls. py_strip l = [] \<Longrightarrow> window_chunks ls m i = []"
proof (induction ls m i rule: window_chunks.induct)
  case (1 lines m i)
  show ?case
  proof (cases "m = 0 \<or> length lines \<le> i")
    case True
    then show ?thesis by (simp add: window_chunks.simps [of lines m i])
  next
    case False
    have "\<forall>l \<in> set (take m (drop i lines)). py_strip l = []"
      using "1.prems" by (meson in_set_dropD in_set_takeD)
    then have "py_strip (join_nl (take m (drop i lines))) = []" by (rule blank_join_nl)
    moreover have "window_chunks lines m (i + m) = []"
      using "1.IH" [OF False refl] "1.prems" by simp
    ultimately show ?thesis using False by (simp add: window_chunks.simps [of lines m i])
  qed
qed

lemma window_chunks_cover:
  "0 < m \<Longrightarrow> i \<le> j \<Longrightarrow> j < length ls \<Longrightarrow> py_strip (ls ! j) \<noteq> [] \<Longrightarrow>
   \<forall>l \<in> set ls. newline \<notin> set l \<Longrightarrow>
   \<exists>k \<in> set (window_chunks ls m i). ls ! j \<in> set (split_nl k)"
proof (induction ls m i rule: window_chunks.induct)
  case (1 lines m i)
  let ?w = "take m (drop i lines)"
  have go: "\<not> (m = 0 \<or> length lines \<le> i)" using "1.prems" by simp
  show ?case
  proof (cases "j < i + m")
    case True
    have "?w ! (j - i) = lines ! j" using True "1.prems" by simp
    moreover have "j - i < length ?w" using True "1.prems" by auto
    ultimately have mem: "lines ! j \<in> set ?w" by (metis nth_mem)
    then have nb: "py_strip (join_nl ?w) \<noteq> []"
      using "1.prems"(4) by (rule nonblank_join_nl)
    have "\<forall>l \<in> set ?w. newline \<notin> set l"
      using "1.prems"(5) by (meson in_set_dropD in_set_takeD)
    moreover have "?w \<noteq> []" using mem by (metis empty_iff empty_set)
    ultimately have "split_nl (join_nl ?w) = ?w" by (simp add: split_join_nl)
    with mem nb go show ?thesis
      by (subst window_chunks.simps) (simp add: Let_def)
  next
    case False
    then have "i + m \<le> j" by simp
    then have "\<exists>k \<in> set (window_chunks lines m (i + m)). lines ! j \<in> set (split_nl k)"
      using "1.IH" [OF go refl] "1.prems" by simp
    with go show ?thesis
      by (subst window_chunks.simps) (auto simp add: Let_def)
  qed
qed

lemma chunk_by_lines_cover:
  assumes "0 < m" "line \<in> set (split_nl content)" "py_strip line \<noteq> []"
  shows "\<exists>chunks. chunk_by_lines content m = Inr chunks \<and>
           (\<exists>k \<in> set chunks. line \<in> set (split_nl k))"
proof -
  obtain j where j: "j < length (split_nl content)" "split_nl content ! j = line"
    using assms(2) by (auto simp: in_set_conv_nth)
  have "\<forall>l \<in> set (split_nl content). newline \<notin> set l"
    using split_nl_no_newline by blast
  then have "\<exists>k \<in> set (window_chunks (split_nl content) (nat m) 0).
      split_nl content ! j \<in> set (split_nl k)"
    using window_chunks_cover [of "nat m" 0 j "split_nl content"] assms j by simp
  then show ?thesis using assms(1) j by (simp add: chunk_by_lines_def)
qed

lemma chunk_by_lines_blank:
  "0 < m \<Longrightarrow> py_strip content = [] \<Longrightarrow> chunk_by_lines content m = Inr []"
  using blank_iff_lines_blank [of content]
  by (simp add: chunk_by_lines_def window_chunks_blank)

lemma chunk_by_lines_nonblank:
  assumes "0 < m" "py_strip content \<noteq> []"
  shows "\<exists>chunks. chunk_by_lines content m = Inr chunks \<and> chunks \<noteq> []"
proof -
  obtain line where "line \<in> set (split_nl content)" "py_strip line \<noteq> []"
    using assms(2) blank_iff_lines_blank [of content] by auto
  then show ?thesis using chunk_by_lines_cover [OF assms(1)] by fastforce
qed

section \<open>Facts about the matcher\<close>

lemma star_greedy_suffix:
  "(\<And>a b. b \<in> set (f a) \<Longrightarrow> suffix (snd b) (snd a)) \<Longrightarrow>
   st' \<in> set (star_greedy f st) \<Longrightarrow> suffix (snd st') (snd st)"
proof (induction f st arbitrary: st' rule: star_greedy.induct)
  case (1 f st)
  from "1.prems"(2) consider "st' = st"
    | m where "m \<in> set (f st)" "length (snd m) < length (snd st)" "st' \<in> set (star_greedy f m)"
    by (subst (asm) star_greedy.simps) auto
  then show ?case
  proof cases
    case 1
    then show ?thesis by simp
  next
    case 2
    then have "suffix (snd st') (snd m)" using "1.IH" "1.prems"(1) by simp
    moreover have "suffix (snd m) (snd st)" using 2(1) "1.prems"(1) by simp
    ultimately show ?thesis by (rule suffix_order.trans)
  qed
qed

lemma star_lazy_suffix:
  "(\<And>a b. b \<in> set (f a) \<Longrightarrow> suffix (snd b) (snd a)) \<Longrightarrow>
   st' \<in> set (star_lazy f st) \<Longrightarrow> suffix (snd st') (snd st)"
proof (induction f st arbitrary: st' rule: star_lazy.induct)
  case (1 f st)
  from "1.prems"(2) consider "st' = st"
    | m where "m \<in> set (f st)" "length (snd m) < length (snd st)" "st' \<in> set (star_lazy f m)"
    by (subst (asm) star_lazy.simps) auto
  then show ?case
  proof cases
    case 1
    then show ?thesis by simp
  next
    case 2
    then have "suffix (snd st') (snd m)" using "1.IH" "1.prems"(1) by simp
    moreover have "suffix (snd m) (snd st)" using 2(1) "1.prems"(1) by simp
    ultimately show ?thesis by (rule suffix_order.trans)
  qed
qed

lemma ends_suffix: "st' \<in> set (ends r st) \<Longrightarrow> suffix (snd st') (snd st)"
proof (induction r arbitrary: st st')
  case (Sym k)
  then show ?case by (cases "snd st") (auto split: if_splits simp: suffix_ConsI)
next
  case Eps
  then show ?case by simp
next
  case (Seq a b)
  then obtain m where "m \<in> set (ends a st)" "st' \<in> set (ends b m)" by auto
  then have "suffix (snd m) (snd st)" "suffix (snd st') (snd m)"
    using Seq.IH by blast+
  then show ?case using suffix_order.trans by blast
next
  case (Alt a b)
  from Alt.prems have "st' \<in> set (ends a st) \<or> st' \<in> set (ends b st)" by simp
  then show ?case using Alt.IH by blast
next
  case (Star a)
  then show ?case using star_greedy_suffix [of "ends a"] by simp
next
  case (LazyStar a)
  then show ?case using star_lazy_suffix [of "ends a"] by simp
next
  case (Look a)
  then show ?case by (auto split: if_splits)
next
  case Bol
  then show ?case by (auto split: if_splits)
next
  case Eos
  then show ?case by (auto split: if_splits)
qed

text \<open>A sequence with a literal character in it only matches text that has the character.\<close>

lemma seqs_needs_char:
  "Sym (Ch c) \<in> set rs \<Longrightarrow> ends (seqs rs) st \<noteq> [] \<Longrightarrow> c \<in> set (snd st)"
proof (induction rs arbitrary: st)
  case Nil
  then show ?case by simp
next
  case (Cons r rs)
  from Cons.prems(2) obtain m where m: "m \<in> set (ends r st)" "ends (seqs rs) m \<noteq> []"
    by auto
  show ?case
  proof (cases "r = Sym (Ch c)")
    case True
    with m(1) show ?thesis by (cases "snd st") (auto split: if_splits)
  next
    case False
    with Cons.prems(1) have "Sym (Ch c) \<in> set rs" by simp
    then have "c \<in> set (snd m)" using Cons.IH m(2) by blast
    moreover have "suffix (snd m) (snd st)" using m(1) by (rule ends_suffix)
    ultimately show ?thesis using set_mono_suffix by blast
  qed
qed

lemma finditer_from_no_match:
  "(\<And>p t. suffix t (snd st) \<Longrightarrow> ends r (p, t) = []) \<Longrightarrow> finditer_from r pos st = []"
proof (induction r pos st rule: finditer_from.induct)
  case (1 r pos st)
  have here: "ends r st = []"
    using "1.prems" [of "snd st" "fst st"] by simp
  show ?case
  proof (cases "snd st")
    case Nil
    with here show ?thesis by (simp add: finditer_from.simps [of r pos st])
  next
    case (Cons c cs)
    have "finditer_from r (Suc pos) (Some c, cs) = []"
    proof (rule "1.IH"(1) [OF here Cons])
      fix p t assume "suffix t (snd (Some c, cs))"
      then have "suffix t (snd st)" using Cons by (simp add: suffix_ConsI)
      then show "ends r (p, t) = []" by (rule "1.prems")
    qed
    with here Cons show ?thesis by (simp add: finditer_from.simps [of r pos st])
  qed
qed

lemma finditer_needs_char:
  assumes "Sym (Ch c) \<in> set rs" "c \<notin> set s"
  shows "finditer (seqs rs) s = []"
  unfolding finditer_def
proof (rule finditer_from_no_match)
  fix p t assume "suffix t (snd (None, s))"
  then have "c \<notin> set t" using assms(2) set_mono_suffix by fastforce
  then show "ends (seqs rs) (p, t) = []"
    using seqs_needs_char [OF assms(1), of "(p, t)"] by auto
qed

lemma c_method_needs_brace: "CHR ''{'' \<notin> set s \<Longrightarrow> finditer c_method_pattern s = []"
  unfolding c_method_pattern_def
  by (rule finditer_needs_char) (simp_all add: block_end_def)

lemma slice_whole: "slice s 0 (length s) = s"
  by (simp add: slice_def)

lemma findall_Nil_iff: "findall r s = [] \<longleftrightarrow> finditer r s = []"
  by (simp add: findall_def)

lemma uncovered_ranges_no_class: "uncovered_ranges n [] = [(0, n)]"
  by (simp add: uncovered_ranges_def)

lemma python_no_match:
  assumes "finditer py_class_pattern content = []" "finditer py_function_pattern content = []"
  shows "chunk_python_file content = [content]"
  using assms by (simp add: chunk_python_file_def findall_def Let_def)

lemma c_style_no_match:
  assumes "finditer c_class_pattern content = []" "finditer c_method_pattern content = []"
    "finditer c_import_pattern content = []"
  shows "chunk_c_style_file content = [content]"
  using assms
  by (simp add: chunk_c_style_file_def findall_def Let_def uncovered_ranges_no_class
      range_matches_def slice_whole with_imports_def whole_file_if_few_def)

lemma javascript_no_match:
  assumes "finditer js_class_pattern content = []"
    "\<forall>p \<in> set js_function_patterns. finditer p content = []"
    "finditer js_import_pattern content = []"
  shows "chunk_javascript_file content = [content]"
proof -
  have "range_matches js_function_patterns content [(0, length content)] = []"
    using assms(2) by (simp add: range_matches_def slice_whole findall_def)
  then show ?thesis
    using assms(1,3)
    by (simp add: chunk_javascript_file_def findall_def Let_def uncovered_ranges_no_class
        with_imports_def whole_file_if_few_def)
qed

lemma uncovered_ranges_one_class:
  "uncovered_ranges n [(s, e)] = (if 0 < s then [(0, s)] else []) @ (if e < n then [(e, n)] else [])"
  by (simp add: uncovered_ranges_def subtract_span_def)

lemma slice_prefix: "slice content 0 s = take s content"
  by (simp add: slice_def)

lemma slice_to_end: "slice content e (length content) = drop e content"
  by (simp add: slice_def)

section \<open>Facts about the chunkers\<close>

lemma chunk_python_file_not_Nil: "chunk_python_file content \<noteq> []"
  by (auto simp: chunk_python_file_def Let_def split: prod.splits)

lemma whole_file_if_few_not_Nil: "whole_file_if_few chunks content \<noteq> []"
  by (auto simp: whole_file_if_few_def)

lemma chunk_c_style_file_not_Nil: "chunk_c_style_file content \<noteq> []"
  by (simp add: chunk_c_style_file_def Let_def whole_file_if_few_not_Nil)

lemma chunk_javascript_file_not_Nil: "chunk_javascript_file content \<noteq> []"
  by (simp add: chunk_javascript_file_def Let_def whole_file_if_few_not_Nil)

lemma chunk_code_file_returns: "\<exists>chunks. chunk_code_file content path = Inr chunks"
  by (simp add: chunk_code_file_def chunk_by_lines_def Let_def)

lemma chunk_code_file_nonblank:
  assumes "py_strip content \<noteq> []"
  shows "\<exists>chunks. chunk_code_file content path = Inr chunks \<and> chunks \<noteq> []"
  using chunk_by_lines_nonblank [of 100 content] assms
  by (simp add: chunk_code_file_def Let_def chunk_python_file_not_Nil
      chunk_c_style_file_not_Nil chunk_javascript_file_not_Nil)

section \<open>Facts about the walker, the ids and the store\<close>

lemma walk_files_char:
  "walk_files env repo paths (collected, logged) =
     (collected @ concat (map (\<lambda>p. case process_file env repo p of Inl e \<Rightarrow> [] | Inr found \<Rightarrow> found)
                           (filter (\<lambda>p. \<not> excluded p) paths)),
      logged @ concat (map (\<lambda>p. case process_file env repo p of Inl e \<Rightarrow> [(p, e)] | Inr found \<Rightarrow> [])
                        (filter (\<lambda>p. \<not> excluded p) paths)))"
  by (induction paths arbitrary: collected logged) (auto split: sum.splits)



lemma upsert_as_map_add:
  "upsert points st = st ++ map_of (rev (map (\<lambda>p. (point_id p, (vector p, text_of p, meta p))) points))"
  unfolding upsert_def
  by (induction points arbitrary: st) (simp_all add: map_add_upd_left)

lemma fold_upsert_concat: "fold upsert batches st = upsert (concat batches) st"
  by (induction batches arbitrary: st) (simp_all add: upsert_def)

lemma map_add_twice: "m ++ n ++ n = m ++ n"
  by (rule ext) (simp add: map_add_def split: option.split)

lemma run_twice: "run_on_store env repos (run_on_store env repos st) = run_on_store env repos st"
  by (simp add: run_on_store_def fold_upsert_concat upsert_as_map_add map_add_twice)

lemma dom_upsert: "dom (upsert points st) = dom st \<union> point_id ` set points"
  by (auto simp add: upsert_as_map_add dom_map_of_conv_image_fst image_image)

lemma dom_run: "dom (run_on_store env repos st) = dom st \<union> set (upserted_ids (fst (index_repositories env repos)))"
  by (simp add: run_on_store_def fold_upsert_concat dom_upsert upserted_ids_def)

section \<open>Claims about the line-window fallback\<close>

text \<open>
  C9: \<open>chunk_by_lines\<close> with \<open>max_lines = 2\<close> on a five-line input \<open>a, b, c, d, e\<close>
  whose windows \<open>a b\<close>, \<open>c d\<close> and \<open>e\<close> each hold a non-whitespace character returns
  exactly the three chunks \<open>a\\nb\<close>, \<open>c\\nd\<close> and \<open>e\<close>; each has at most two lines and none
  is empty after stripping.
\<close>

theorem chunk_by_lines_five_lines:
  assumes lines: "split_nl content = [a, b, c, d, e]"
    and w1: "\<exists>x \<in> set (a @ b). \<not> is_space x"
    and w2: "\<exists>x \<in> set (c @ d). \<not> is_space x"
    and w3: "\<exists>x \<in> set e. \<not> is_space x"
  shows "chunk_by_lines content 2 = Inr [a @ newline # b, c @ newline # d, e] \<and>
         (\<exists>cs. chunk_by_lines content 2 = Inr cs \<and> length cs = 3 \<and>
            (\<forall>k \<in> set cs. length (split_nl k) \<le> 2 \<and> py_strip k \<noteq> []))"
proof -
  have nn: "\<forall>l \<in> set [a, b, c, d, e]. newline \<notin> set l"
    using split_nl_no_newline [of _ content] lines by simp
  have s1: "py_strip (a @ newline # b) \<noteq> []"
    using w1 by (auto simp: py_strip_Nil_iff)
  have s2: "py_strip (c @ newline # d) \<noteq> []"
    using w2 by (auto simp: py_strip_Nil_iff)
  have s3: "py_strip e \<noteq> []"
    using w3 by (auto simp: py_strip_Nil_iff)
  have res: "chunk_by_lines content 2 = Inr [a @ newline # b, c @ newline # d, e]"
    using s1 s2 s3 by (simp add: chunk_by_lines_def lines window_chunks_five)
  have l1: "length (split_nl (a @ newline # b)) \<le> 2"
    using nn by (simp add: split_nl_append split_nl_no_newline_id)
  have l2: "length (split_nl (c @ newline # d)) \<le> 2"
    using nn by (simp add: split_nl_append split_nl_no_newline_id)
  have l3: "length (split_nl e) \<le> 2"
    using nn by (simp add: split_nl_no_newline_id)
  show ?thesis
    using res s1 s2 s3 l1 l2 l3 by simp
qed

theorem chunk_by_lines_five_lines_witness:
  "chunk_by_lines ''a\<newline>b\<newline>c\<newline>d\<newline>e'' 2 = Inr [''a\<newline>b'', ''c\<newline>d'', ''e'']"
proof -
  have l: "split_nl ''a\<newline>b\<newline>c\<newline>d\<newline>e'' = [''a'', ''b'', ''c'', ''d'', ''e'']"
    by (simp add: newline_def)
  have w1: "\<exists>x \<in> set (''a'' @ ''b''). \<not> is_space x"
    by (simp add: is_space_def)
  have w2: "\<exists>x \<in> set (''c'' @ ''d''). \<not> is_space x"
    by (simp add: is_space_def)
  have w3: "\<exists>x \<in> set ''e''. \<not> is_space x"
    by (simp add: is_space_def)
  show ?thesis
    using chunk_by_lines_five_lines [OF l w1 w2 w3] by (simp add: newline_def)
qed

section \<open>Claims about the segmenter\<close>

text \<open>
  C1, as amended: for every input that has a non-whitespace character, and every file
  path, \<open>chunk_code_file\<close> returns a non-empty sequence of segments; the line-window
  fallback \<open>chunk_by_lines\<close> (any positive window size) returns, for every line of the
  input that has a non-whitespace character, a segment of which that line is a line; and
  the python, c_style and javascript chunkers return a non-empty sequence on every
  input.  (That the structural chunkers keep every line is not part of the statement.)
\<close>

theorem segmenter_nonblank_input_covered:
  "(py_strip content \<noteq> [] \<longrightarrow>
      (\<exists>chunks. chunk_code_file content path = Inr chunks \<and> chunks \<noteq> [])) \<and>
   (0 < m \<and> line \<in> set (split_nl content) \<and> py_strip line \<noteq> [] \<longrightarrow>
      (\<exists>chunks. chunk_by_lines content m = Inr chunks \<and>
         (\<exists>k \<in> set chunks. line \<in> set (split_nl k)))) \<and>
   chunk_python_file content \<noteq> [] \<and>
   chunk_c_style_file content \<noteq> [] \<and>
   chunk_javascript_file content \<noteq> []"
  using chunk_code_file_nonblank [of content path] chunk_by_lines_cover [of m line content]
    chunk_python_file_not_Nil [of content] chunk_c_style_file_not_Nil [of content]
    chunk_javascript_file_not_Nil [of content]
  by blast

theorem segmenter_nonblank_input_covered_witness:
  "(\<exists>chunks. chunk_code_file ''a\<newline>\<newline>b'' ''notes.txt'' = Inr chunks \<and> chunks \<noteq> []) \<and>
   (\<exists>chunks. chunk_by_lines ''a\<newline>\<newline>b'' 100 = Inr chunks \<and>
      (\<exists>k \<in> set chunks. ''b'' \<in> set (split_nl k)))"
proof -
  have h1: "py_strip ''a\<newline>\<newline>b'' \<noteq> []"
    by (simp add: py_strip_def is_space_def)
  have h2: "(0::int) < 100 \<and> ''b'' \<in> set (split_nl ''a\<newline>\<newline>b'') \<and> py_strip ''b'' \<noteq> []"
    by (simp add: py_strip_def is_space_def newline_def)
  show ?thesis
    using segmenter_nonblank_input_covered [of "''a\<newline>\<newline>b''" "''notes.txt''" 100 "''b''"] h1 h2
    by blast
qed

text \<open>
  C1 as stated fails: a non-empty input of one blank yields no segment at all, and on a
  Java file with an import, a function without modifier and a class the two returned
  segments do not hold the line \<open>int f() {\<close>, in either order of concatenation.
\<close>

theorem segmenter_coverage_counterexample:
  "chunk_code_file '' '' ''notes.txt'' = Inr [] \<and>
   chunk_code_file ''import a.b;\<newline>int f() {\<newline>}\<newline>class A {\<newline>}'' ''A.java'' =
     Inr [''\<newline>class A {\<newline>}'', ''import a.b;''] \<and>
   \<not> contains ''int f() {'' (''\<newline>class A {\<newline>}'' @ ''import a.b;'') \<and>
   \<not> contains ''int f() {'' (''import a.b;'' @ ''\<newline>class A {\<newline>}'')"
  by code_simp

text \<open>
  C2: a python input that is one top-level class and nothing else.  The class pattern
  matches the whole input, the match is removed from \<open>content\<close>, and since there is only
  one chunk the function returns \<open>[content]\<close>: the empty rest, not the class.
\<close>

theorem python_single_class_returns_residue:
  "findall py_class_pattern ''class A:\<newline>    x = 1'' = [''class A:\<newline>    x = 1''] \<and>
   chunk_python_file ''class A:\<newline>    x = 1'' = [[]]"
  by code_simp

text \<open>
  C3, as amended: \<open>chunk_code_file\<close> never raises.  On the empty input the line-window
  fallback returns the empty sequence and the python, c_style and javascript chunkers
  return one segment, the empty string.  The three structural chunkers return at least
  one segment on every input; the fallback returns no segment exactly when the input,
  stripped of whitespace, is empty.
\<close>

theorem segmenter_never_raises:
  "(\<exists>chunks. chunk_code_file content path = Inr chunks) \<and>
   chunk_by_lines [] 100 = Inr [] \<and>
   chunk_python_file [] = [[]] \<and>
   chunk_c_style_file [] = [[]] \<and>
   chunk_javascript_file [] = [[]] \<and>
   chunk_python_file content \<noteq> [] \<and>
   chunk_c_style_file content \<noteq> [] \<and>
   chunk_javascript_file content \<noteq> [] \<and>
   ((chunk_by_lines content 100 = Inr []) = (py_strip content = []))"
proof -
  have e0: "chunk_by_lines [] 100 = Inr []" by code_simp
  have e1: "chunk_python_file [] = [[]]" by code_simp
  have e2: "chunk_c_style_file [] = [[]]" by code_simp
  have e3: "chunk_javascript_file [] = [[]]" by code_simp
  have "(chunk_by_lines content 100 = Inr []) = (py_strip content = [])"
  proof (cases "py_strip content = []")
    case True
    then show ?thesis using chunk_by_lines_blank [of 100 content] by simp
  next
    case False
    then obtain chunks where "chunk_by_lines content 100 = Inr chunks" "chunks \<noteq> []"
      using chunk_by_lines_nonblank [of 100 content] by auto
    with False show ?thesis by simp
  qed
  then show ?thesis
    using e0 e1 e2 e3 chunk_code_file_returns [of content path]
      chunk_python_file_not_Nil [of content] chunk_c_style_file_not_Nil [of content]
      chunk_javascript_file_not_Nil [of content]
    by simp
qed

text \<open>
  C3 as stated fails: the empty input of a python file gives one segment, and the
  non-empty input of one newline gives none under the fallback.
\<close>

theorem segmenter_empty_input_counterexample:
  "chunk_code_file [] ''m.py'' = Inr [[]] \<and>
   chunk_code_file ''\<newline>'' ''notes.txt'' = Inr []"
  by code_simp

text \<open>
  C6: when the patterns of a family find no match in the input (for python the class and
  function patterns, for c_style the class, method and import patterns, for javascript
  the class pattern, the five function patterns and the import pattern), the chunker of
  that family returns exactly the one-element sequence holding the input unchanged.
\<close>

theorem no_match_returns_whole_file:
  "(finditer py_class_pattern content = [] \<and> finditer py_function_pattern content = [] \<longrightarrow>
      chunk_python_file content = [content]) \<and>
   (finditer c_class_pattern content = [] \<and> finditer c_method_pattern content = [] \<and>
    finditer c_import_pattern content = [] \<longrightarrow>
      chunk_c_style_file content = [content]) \<and>
   (finditer js_class_pattern content = [] \<and>
    (\<forall>p \<in> set js_function_patterns. finditer p content = []) \<and>
    finditer js_import_pattern content = [] \<longrightarrow>
      chunk_javascript_file content = [content])"
  using python_no_match [of content] c_style_no_match [of content]
    javascript_no_match [of content]
  by blast

theorem no_match_returns_whole_file_witness:
  "chunk_python_file ''x = 1'' = [''x = 1''] \<and>
   chunk_c_style_file ''x = 1'' = [''x = 1''] \<and>
   chunk_javascript_file ''x = 1'' = [''x = 1'']"
proof -
  have p: "finditer py_class_pattern ''x = 1'' = [] \<and> finditer py_function_pattern ''x = 1'' = []"
    by code_simp
  have c: "finditer c_class_pattern ''x = 1'' = [] \<and> finditer c_method_pattern ''x = 1'' = [] \<and>
      finditer c_import_pattern ''x = 1'' = []"
    by code_simp
  have f: "list_all (\<lambda>p. finditer p ''x = 1'' = []) js_function_patterns"
    by code_simp
  have j: "finditer js_class_pattern ''x = 1'' = [] \<and> finditer js_import_pattern ''x = 1'' = []"
    by code_simp
  from f have f': "\<forall>p \<in> set js_function_patterns. finditer p ''x = 1'' = []"
    by (simp add: list_all_iff)
  show ?thesis
    using no_match_returns_whole_file [of "''x = 1''"] p c j f' by blast
qed

text \<open>
  C7, as amended: for every c_style input on which the class pattern matches exactly
  once, and in which no opening brace stands before or behind that match (the match
  runs from the declaration to the first line that begins with a closing brace, so the
  methods it covers are those before that line), the method extraction over the
  uncovered ranges yields no segment, and the result is built from the class match and
  the imports alone.
\<close>

theorem class_match_consumes_methods:
  assumes "finditer c_class_pattern content = [(s, e)]"
    and "CHR ''{'' \<notin> set (take s content)"
    and "CHR ''{'' \<notin> set (drop e content)"
  shows "range_matches [c_method_pattern] content
           (uncovered_ranges (length content) (finditer c_class_pattern content)) = [] \<and>
         chunk_c_style_file content =
           whole_file_if_few (with_imports [slice content s e] (findall c_import_pattern content))
             content"
proof -
  have pre: "findall c_method_pattern (take s content) = []"
    using assms(2) by (simp add: findall_Nil_iff c_method_needs_brace)
  have post: "findall c_method_pattern (drop e content) = []"
    using assms(3) by (simp add: findall_Nil_iff c_method_needs_brace)
  have none: "range_matches [c_method_pattern] content
      (uncovered_ranges (length content) [(s, e)]) = []"
    using pre post
    by (simp add: uncovered_ranges_one_class range_matches_def slice_prefix slice_to_end)
  then show ?thesis
    using assms(1) by (simp add: chunk_c_style_file_def Let_def)
qed

theorem class_match_consumes_methods_witness:
  "range_matches [c_method_pattern] ''class A {\<newline>  public void f() {\<newline>  }\<newline>  public void g() {\<newline>  }\<newline>}\<newline>''
     (uncovered_ranges (length ''class A {\<newline>  public void f() {\<newline>  }\<newline>  public void g() {\<newline>  }\<newline>}\<newline>'') (finditer c_class_pattern ''class A {\<newline>  public void f() {\<newline>  }\<newline>  public void g() {\<newline>  }\<newline>}\<newline>'')) = [] \<and>
   chunk_c_style_file ''class A {\<newline>  public void f() {\<newline>  }\<newline>  public void g() {\<newline>  }\<newline>}\<newline>'' = [''class A {\<newline>  public void f() {\<newline>  }\<newline>  public void g() {\<newline>  }\<newline>}\<newline>'']"
proof -
  have m: "finditer c_class_pattern ''class A {\<newline>  public void f() {\<newline>  }\<newline>  public void g() {\<newline>  }\<newline>}\<newline>'' = [(0, 59)]"
    by code_simp
  have a: "CHR ''{'' \<notin> set (take 0 ''class A {\<newline>  public void f() {\<newline>  }\<newline>  public void g() {\<newline>  }\<newline>}\<newline>'')"
    by simp
  have b: "CHR ''{'' \<notin> set (drop 59 ''class A {\<newline>  public void f() {\<newline>  }\<newline>  public void g() {\<newline>  }\<newline>}\<newline>'')"
    by simp
  have i: "findall c_import_pattern ''class A {\<newline>  public void f() {\<newline>  }\<newline>  public void g() {\<newline>  }\<newline>}\<newline>'' = []"
    by code_simp
  show ?thesis
    using class_match_consumes_methods [OF m a b] i
    by (simp add: with_imports_def whole_file_if_few_def slice_def)
qed

text \<open>
  C7 as stated fails: in a class whose two methods are written without indentation the
  class match ends at the closing brace of the first method, and the second method is
  extracted from the uncovered range behind it.
\<close>

theorem class_methods_counterexample:
  "finditer c_class_pattern ''class A {\<newline>public void f() {\<newline>}\<newline>public void g() {\<newline>}\<newline>}'' = [(0, 29)] \<and>
   range_matches [c_method_pattern] ''class A {\<newline>public void f() {\<newline>}\<newline>public void g() {\<newline>}\<newline>}''
     (uncovered_ranges (length ''class A {\<newline>public void f() {\<newline>}\<newline>public void g() {\<newline>}\<newline>}'') (finditer c_class_pattern ''class A {\<newline>public void f() {\<newline>}\<newline>public void g() {\<newline>}\<newline>}'')) =
     [''public void g() {\<newline>}''] \<and>
   chunk_c_style_file ''class A {\<newline>public void f() {\<newline>}\<newline>public void g() {\<newline>}\<newline>}'' =
     [''class A {\<newline>public void f() {\<newline>}'', ''public void g() {\<newline>}'']"
  by code_simp

text \<open>
  C10: an input with two classes and text before each.  After the spans of both classes
  are subtracted, the first uncovered range runs over the first class, and the two
  ranges overlap; the same happens with the javascript class pattern.
\<close>

theorem uncovered_ranges_overlap_classes:
  "finditer c_class_pattern ''x\<newline>class A {\<newline>}\<newline>y\<newline>class B {\<newline>}'' = [(1, 13), (15, 27)] \<and>
   uncovered_ranges (length ''x\<newline>class A {\<newline>}\<newline>y\<newline>class B {\<newline>}'') (finditer c_class_pattern ''x\<newline>class A {\<newline>}\<newline>y\<newline>class B {\<newline>}'') = [(0, 15), (13, 15)] \<and>
   finditer js_class_pattern ''x\<newline>class A {\<newline>}\<newline>y\<newline>class B {\<newline>}'' = [(2, 13), (16, 27)] \<and>
   uncovered_ranges (length ''x\<newline>class A {\<newline>}\<newline>y\<newline>class B {\<newline>}'') (finditer js_class_pattern ''x\<newline>class A {\<newline>}\<newline>y\<newline>class B {\<newline>}'') = [(0, 16), (13, 16)]"
  by code_simp

section \<open>Claims about the walker and the indexing run\<close>

text \<open>
  C4, as amended: running the indexing loop a second time over the same repositories, in
  the same environment, upserts the same ids again, so the second run overwrites the
  entries of the first: the store after two runs is the store after one run, and its
  ids are those it had before together with the ids of one run.
\<close>

theorem second_run_overwrites_first:
  "run_on_store env repos (run_on_store env repos st) = run_on_store env repos st \<and>
   dom (run_on_store env repos (run_on_store env repos st)) =
     dom st \<union> set (upserted_ids (fst (index_repositories env repos)))"
  by (simp add: run_twice dom_run)

text \<open>
  C4 as stated fails: a run over the repository \<open>r1\<close> upserts the id 0, and after two
  runs from the empty store there is one entry, not two.
\<close>

theorem two_runs_counterexample:
  "upserted_ids (fst (index_repositories two_repos [''r1''])) = [0] \<and>
   dom (run_on_store two_repos [''r1''] (run_on_store two_repos [''r1''] Map.empty)) = {0}"
proof -
  have b: "fst (index_repositories two_repos [''r1'']) =
      [[\<lparr>point_id = 0, vector = 1, text_of = ''x'',
         meta = \<lparr>file_path = ''a.go'', repo_name = ''r1'', chunk_id = 0, language = ''go''\<rparr>\<rparr>]]"
    by code_simp
  have "dom (run_on_store two_repos [''r1''] (run_on_store two_repos [''r1''] Map.empty)) = {0}"
    unfolding run_on_store_def b by (simp add: upsert_def)
  then show ?thesis
    unfolding b by (simp add: upserted_ids_def)
qed



text \<open>
  C8: the result of \<open>process_repository\<close> is determined file by file.  A file that is not
  excluded and whose processing raises contributes no chunk and one entry of the error
  log; every other file contributes its chunks whatever happens to the files around
  it; the chunks are indexed and the log is returned, so no exception of a file leaves
  the walk.
\<close>

theorem per_file_failures_isolated:
  "process_repository env repo_path =
     (let files = filter (\<lambda>p. \<not> excluded p) (code_files env repo_path);
          all_chunks = concat (map (\<lambda>p. case process_file env repo_path p of
                                  Inl e \<Rightarrow> [] | Inr found \<Rightarrow> found) files);
          logged = concat (map (\<lambda>p. case process_file env repo_path p of
                                  Inl e \<Rightarrow> [(p, e)] | Inr found \<Rightarrow> []) files)
      in (if all_chunks = [] then ([], None) else index_batches env all_chunks 0, logged))"
  by (simp add: process_repository_def walk_files_char Let_def del: concat_eq_Nil_conv)

end
